theory Spec2Isabelle
  imports Main
begin

section \<open>Values of the program\<close>

text \<open>
  The program of \<^verbatim>\<open>src/index.js\<close> keeps one flat state object
  \<^verbatim>\<open>{ toggle, counter }\<close> and changes it through action objects
  \<^verbatim>\<open>{ type, difference }\<close>. The reducer negates \<^verbatim>\<open>toggle\<close>, and
  it applies \<^verbatim>\<open>+\<close> and \<^verbatim>\<open>-\<close> to \<^verbatim>\<open>counter\<close> and
  \<^verbatim>\<open>difference\<close>, whose values are those of the language.
\<close>

subsection \<open>Numbers\<close>

text \<open>
  A JavaScript number is a binary64 floating-point number. The embedding has the
  integer-valued ones, \<open>NaN\<close> and the two infinities; \<open>Finite z\<close> is a number of
  the language when \<open>z\<close> has a binary64 representation, as every \<open>z\<close> of magnitude
  up to \<open>2\<^sup>5\<^sup>3\<close> has. Fractions are not represented, nor is the negative
  zero, which no sum or difference of the represented numbers yields.
\<close>

datatype jsnumber = Finite int | NaN | PosInfinity | NegInfinity

text \<open>The number of binary digits of a positive integer.\<close>

function bit_length :: "int \<Rightarrow> nat" where
  "bit_length n = (if n \<le> 0 then 0 else Suc (bit_length (n div 2)))"
  by pat_completeness auto
termination
  by (relation "measure nat") auto

declare bit_length.simps [simp del]

text \<open>
  The binary64 number nearest to an integer, as the result of an arithmetic operation
  is rounded: a significand of 53 binary digits, a tie going to the even significand,
  and a magnitude that rounds to \<open>2\<^sup>1\<^sup>0\<^sup>2\<^sup>4\<close> or more going to infinity.
\<close>

definition round_double :: "int \<Rightarrow> jsnumber" where
  "round_double z =
     (if \<bar>z\<bar> \<le> 2 ^ 53 then Finite z
      else
        let e = bit_length \<bar>z\<bar> - 53;
            q = \<bar>z\<bar> div 2 ^ e;
            r = \<bar>z\<bar> mod 2 ^ e;
            half = 2 ^ (e - 1);
            q' = (if half < r \<or> (r = half \<and> odd q) then q + 1 else q);
            v = q' * 2 ^ e
        in if 2 ^ 1024 \<le> v then (if 0 < z then PosInfinity else NegInfinity)
           else Finite (sgn z * v))"

text \<open>\<^verbatim>\<open>Number::add\<close>, \<^verbatim>\<open>Number::unaryMinus\<close> and \<^verbatim>\<open>Number::subtract\<close>.\<close>

fun number_add :: "jsnumber \<Rightarrow> jsnumber \<Rightarrow> jsnumber" where
  "number_add (Finite a) (Finite b) = round_double (a + b)"
| "number_add NaN _ = NaN"
| "number_add _ NaN = NaN"
| "number_add PosInfinity NegInfinity = NaN"
| "number_add NegInfinity PosInfinity = NaN"
| "number_add PosInfinity _ = PosInfinity"
| "number_add _ PosInfinity = PosInfinity"
| "number_add NegInfinity _ = NegInfinity"
| "number_add _ NegInfinity = NegInfinity"

fun number_negate :: "jsnumber \<Rightarrow> jsnumber" where
  "number_negate (Finite a) = Finite (- a)"
| "number_negate NaN = NaN"
| "number_negate PosInfinity = NegInfinity"
| "number_negate NegInfinity = PosInfinity"

definition number_subtract :: "jsnumber \<Rightarrow> jsnumber \<Rightarrow> jsnumber" where
  "number_subtract x y = number_add x (number_negate y)"

subsection \<open>Values and the arithmetic operators\<close>

text \<open>
  The values a \<^verbatim>\<open>counter\<close> or a \<^verbatim>\<open>difference\<close> may hold:
  \<^verbatim>\<open>undefined\<close> (also what reading an absent property gives),
  \<^verbatim>\<open>null\<close>, the booleans, the numbers, the BigInts and the symbols. Strings
  and objects are not represented: with a string operand \<^verbatim>\<open>+\<close> concatenates
  and the counter becomes a string, and what follows depends on the conversions between
  numbers and their decimal notation.
\<close>

datatype jsvalue = Undefined | Null | Boolean bool | Number jsnumber | BigInt int | Symbol

datatype error = TypeError | NoNextState

text \<open>
  \<^verbatim>\<open>ToNumeric\<close>: a BigInt stays what it is, a symbol raises a \<open>TypeError\<close>, and
  every other value becomes a number.
\<close>

fun to_numeric :: "jsvalue \<Rightarrow> error + jsvalue" where
  "to_numeric Undefined = Inr (Number NaN)"
| "to_numeric Null = Inr (Number (Finite 0))"
| "to_numeric (Boolean b) = Inr (Number (Finite (if b then 1 else 0)))"
| "to_numeric (Number x) = Inr (Number x)"
| "to_numeric (BigInt n) = Inr (BigInt n)"
| "to_numeric Symbol = Inl TypeError"

text \<open>
  The operators \<^verbatim>\<open>+\<close> and \<^verbatim>\<open>-\<close> on two numeric values: two numbers are
  added as numbers, two BigInts as integers, and a number with a BigInt raises a
  \<open>TypeError\<close>.
\<close>

fun numeric_add :: "jsvalue \<Rightarrow> jsvalue \<Rightarrow> error + jsvalue" where
  "numeric_add (Number x) (Number y) = Inr (Number (number_add x y))"
| "numeric_add (BigInt m) (BigInt n) = Inr (BigInt (m + n))"
| "numeric_add _ _ = Inl TypeError"

fun numeric_subtract :: "jsvalue \<Rightarrow> jsvalue \<Rightarrow> error + jsvalue" where
  "numeric_subtract (Number x) (Number y) = Inr (Number (number_subtract x y))"
| "numeric_subtract (BigInt m) (BigInt n) = Inr (BigInt (m - n))"
| "numeric_subtract _ _ = Inl TypeError"

text \<open>
  The operators \<^verbatim>\<open>+\<close> and \<^verbatim>\<open>-\<close> of the source: the left operand is
  converted first, then the right one, then the operation is applied.
\<close>

definition js_plus :: "jsvalue \<Rightarrow> jsvalue \<Rightarrow> error + jsvalue" where
  "js_plus x y =
     (case to_numeric x of
        Inl e \<Rightarrow> Inl e
      | Inr a \<Rightarrow> (case to_numeric y of Inl e \<Rightarrow> Inl e | Inr b \<Rightarrow> numeric_add a b))"

definition js_minus :: "jsvalue \<Rightarrow> jsvalue \<Rightarrow> error + jsvalue" where
  "js_minus x y =
     (case to_numeric x of
        Inl e \<Rightarrow> Inl e
      | Inr a \<Rightarrow> (case to_numeric y of Inl e \<Rightarrow> Inl e | Inr b \<Rightarrow> numeric_subtract a b))"

text \<open>The values that \<^verbatim>\<open>ToNumeric\<close> turns into a number.\<close>

fun number_like :: "jsvalue \<Rightarrow> bool" where
  "number_like (BigInt n) = False"
| "number_like Symbol = False"
| "number_like _ = True"


subsection \<open>State and action objects\<close>

text \<open>
  The state object. Every state the program builds has a boolean \<^verbatim>\<open>toggle\<close>
  (it starts as \<^verbatim>\<open>false\<close> and is only ever negated).
\<close>

record state =
  toggle :: bool
  counter :: jsvalue

text \<open>
  An action object. \<open>type\<close> is \<open>None\<close> when the object has no
  \<^verbatim>\<open>type\<close> property, and \<open>difference\<close> is \<open>Undefined\<close> when it has no
  \<^verbatim>\<open>difference\<close> property. Any further properties an action carries are the
  extension part of the record, which the reducer below is polymorphic in.
\<close>

record action =
  type :: "string option"
  difference :: jsvalue

section \<open>Action types and action creators\<close>

definition TOGGLE_SWITCH :: string where
  "TOGGLE_SWITCH = ''TOGGLE_SWITCH''"

definition INCREASE :: string where
  "INCREASE = ''INCREASE''"

definition DECREASE :: string where
  "DECREASE = ''DECREASE''"

definition toggleSwitch :: action where
  "toggleSwitch = \<lparr>type = Some TOGGLE_SWITCH, difference = Undefined\<rparr>"

definition increase :: "jsvalue \<Rightarrow> action" where
  "increase = (\<lambda>difference. \<lparr>type = Some INCREASE, difference = difference\<rparr>)"

definition decrease :: action where
  "decrease = \<lparr>type = Some DECREASE, difference = Undefined\<rparr>"

section \<open>The reducer\<close>

definition initialState :: state where
  "initialState = \<lparr>toggle = False, counter = Number (Finite 0)\<rparr>"

text \<open>
  \<^verbatim>\<open>function reducer(state = initialState, action)\<close>. The first argument is
  \<open>None\<close> when the caller passes \<^verbatim>\<open>undefined\<close>, and the parameter default
  then applies; otherwise it is a state object. (The states of the program are
  \<^verbatim>\<open>initialState\<close> and the results of the reducer. A value that is no state
  object, such as \<^verbatim>\<open>null\<close>, on which reading \<^verbatim>\<open>state.toggle\<close>
  raises a \<open>TypeError\<close>, is outside the type.) The second argument is \<open>None\<close> when the caller passes
  \<^verbatim>\<open>undefined\<close> or \<^verbatim>\<open>null\<close>: reading \<^verbatim>\<open>action.type\<close>
  then raises a \<open>TypeError\<close>. The \<^verbatim>\<open>switch\<close> compares with strict equality,
  first match first; the object spread with one overwritten property is a record update.
  An operator that raises ends the call with its error.
\<close>

definition reducer :: "state option \<Rightarrow> 'p action_scheme option \<Rightarrow> error + state" where
  "reducer state action =
     (let state = (case state of None \<Rightarrow> initialState | Some s \<Rightarrow> s) in
      case action of
        None \<Rightarrow> Inl TypeError
      | Some action \<Rightarrow>
          if type action = Some TOGGLE_SWITCH then
            Inr (state\<lparr>toggle := \<not> toggle state\<rparr>)
          else if type action = Some INCREASE then
            (case js_plus (counter state) (difference action) of
               Inl e \<Rightarrow> Inl e
             | Inr v \<Rightarrow> Inr (state\<lparr>counter := v\<rparr>))
          else if type action = Some DECREASE then
            (case js_minus (counter state) (Number (Finite 1)) of
               Inl e \<Rightarrow> Inl e
             | Inr v \<Rightarrow> Inr (state\<lparr>counter := v\<rparr>))
          else
            Inr state)"

section \<open>Objects and references\<close>

text \<open>
  The source never assigns to a property of a state: each of the three cases evaluates
  an object literal, which makes a new object, and the default case returns the
  reference it was given. To state this, the reducer is given a second reading, in which
  state objects live in a heap and are passed by reference. The heap is the list of the
  state objects made so far, an address is a position in it, and making an object
  appends it.
\<close>

type_synonym heap = "state list"

definition alloc :: "heap \<Rightarrow> state \<Rightarrow> nat \<times> heap" where
  "alloc h obj = (length h, h @ [obj])"

text \<open>
  \<^verbatim>\<open>const initialState = { toggle: false, counter: 0 }\<close> makes the first
  object when the module is loaded.
\<close>

definition initialState_ref :: nat where
  "initialState_ref = 0"

definition module_heap :: heap where
  "module_heap = [initialState]"

text \<open>
  The reducer on references. Its first argument is \<open>None\<close> for
  \<^verbatim>\<open>undefined\<close> and the reference of a state object otherwise; its result is
  the reference it returns and the heap after the call. When an operator raises, the
  call ends with the error and the object literal under evaluation is never seen.
\<close>

definition reducer_ref ::
  "heap \<Rightarrow> nat option \<Rightarrow> 'p action_scheme option \<Rightarrow> error + nat \<times> heap" where
  "reducer_ref h state action =
     (let state = (case state of None \<Rightarrow> initialState_ref | Some r \<Rightarrow> r) in
      case action of
        None \<Rightarrow> Inl TypeError
      | Some action \<Rightarrow>
          if type action = Some TOGGLE_SWITCH then
            Inr (alloc h ((h ! state)\<lparr>toggle := \<not> toggle (h ! state)\<rparr>))
          else if type action = Some INCREASE then
            (case js_plus (counter (h ! state)) (difference action) of
               Inl e \<Rightarrow> Inl e
             | Inr v \<Rightarrow> Inr (alloc h ((h ! state)\<lparr>counter := v\<rparr>)))
          else if type action = Some DECREASE then
            (case js_minus (counter (h ! state)) (Number (Finite 1)) of
               Inl e \<Rightarrow> Inl e
             | Inr v \<Rightarrow> Inr (alloc h ((h ! state)\<lparr>counter := v\<rparr>)))
          else
            Inr (state, h))"

text \<open>
  A reference always denotes an object that exists, so the heap is only read below its
  length; and no statement of the program writes to the object of
  \<^verbatim>\<open>initialState\<close>, so it holds the value it was made with. \<open>live\<close> says both
  of a heap and a state argument.
\<close>

definition live :: "heap \<Rightarrow> nat option \<Rightarrow> bool" where
  "live h state =
     (initialState_ref < length h \<and> h ! initialState_ref = initialState \<and>
      (case state of None \<Rightarrow> True | Some r \<Rightarrow> r < length h))"

text \<open>The value of a state argument, and the value of what a call returned.\<close>

definition argument :: "heap \<Rightarrow> nat option \<Rightarrow> state option" where
  "argument h state = map_option (\<lambda>r. h ! r) state"

definition returned :: "error + nat \<times> heap \<Rightarrow> error + state" where
  "returned res = (case res of Inl e \<Rightarrow> Inl e | Inr (r, h') \<Rightarrow> Inr (h' ! r))"

section \<open>The state container\<close>

text \<open>
  \<^verbatim>\<open>src/index.js\<close> gets its container from
  \<^verbatim>\<open>import { createStore } from "redux"\<close>; the code of that package is not
  among the sources. The container below follows section 4.1 of the specification.
  A listener is a callback whose body the container never looks into, so a listener is a
  value of any type \<open>'l\<close>, and calling it is recorded in the log \<open>notified\<close>
  together with the handle of its subscription. The listeners of this model return
  normally and do not call back into the container.
\<close>

text \<open>
  Modelled from the spec: the container of \<^verbatim>\<open>createStore\<close>, which "owns the
  current state value, a pure transition function, and a set of subscribed listeners".
  The listeners are kept in the order of subscription, each with the handle that its
  \<^verbatim>\<open>subscribe\<close> call returned; \<open>nextHandle\<close> is the next handle to give out.
  \<open>notified\<close> is the trace of the listener calls made so far, kept to say what a
  dispatch calls.
\<close>

record ('s, 'l) container =
  transitionFn :: "'s option \<Rightarrow> action option \<Rightarrow> error + 's option"
  currentState :: 's
  listeners :: "(nat \<times> 'l) list"
  nextHandle :: nat
  notified :: "(nat \<times> 'l) list"

text \<open>
  A transition function may throw (\<open>Inl\<close>) or return \<^verbatim>\<open>undefined\<close>
  (\<open>Inr None\<close>). \<open>returning f\<close> is a function \<open>f\<close> whose result type has no
  \<^verbatim>\<open>undefined\<close>, seen as a transition function.
\<close>

definition returning ::
  "('s option \<Rightarrow> 'a \<Rightarrow> error + 's) \<Rightarrow> 's option \<Rightarrow> 'a \<Rightarrow> error + 's option" where
  "returning f state action =
     (case f state action of Inl e \<Rightarrow> Inl e | Inr next \<Rightarrow> Inr (Some next))"

text \<open>
  Modelled from the spec: the "no-op/initialization action" of \<^verbatim>\<open>create\<close>,
  missing with the container's code. Its discriminator is one that no application uses.
\<close>

definition INIT :: action where
  "INIT = \<lparr>type = Some ''@@INIT'', difference = Undefined\<rparr>"

text \<open>
  Modelled from the spec: \<^verbatim>\<open>create(transitionFn, initialState?)\<close>, missing with
  the container's code. The current state is the initial state if one is given, "else the
  value the transition function returns when invoked with an absent state and a
  no-op/initialization action". The specification does not say what happens when that
  call fails; here the failure is returned. Its other failure, a transition function
  that is not callable, cannot occur for a function of this type.
\<close>

definition create ::
  "('s option \<Rightarrow> action option \<Rightarrow> error + 's option) \<Rightarrow> 's option \<Rightarrow>
   error + ('s, 'l) container" where
  "create f init =
     (case (case init of
              Some s \<Rightarrow> Inr (Some s)
            | None \<Rightarrow> f None (Some INIT)) of
        Inl e \<Rightarrow> Inl e
      | Inr None \<Rightarrow> Inl NoNextState
      | Inr (Some s) \<Rightarrow>
          Inr \<lparr>transitionFn = f, currentState = s, listeners = [], nextHandle = 0,
               notified = []\<rparr>)"

text \<open>
  Modelled from the spec: \<^verbatim>\<open>getState()\<close>, missing with the container's code:
  "returns the current state snapshot".
\<close>

definition getState :: "('s, 'l) container \<Rightarrow> 's" where
  "getState c = currentState c"

text \<open>
  Modelled from the spec: \<^verbatim>\<open>dispatch(action)\<close>, missing with the container's
  code. It "computes next = transitionFn(current, action); replaces current with next;
  then synchronously invokes every currently-subscribed listener, in the order of
  subscription", and it "fails with an error if transitionFn throws or returns
  undefined", the state being "left unchanged at its pre-dispatch value" and no listener
  notified.
\<close>

definition dispatch ::
  "('s, 'l) container \<Rightarrow> action option \<Rightarrow> error + ('s, 'l) container" where
  "dispatch c action =
     (case transitionFn c (Some (currentState c)) action of
        Inl e \<Rightarrow> Inl e
      | Inr None \<Rightarrow> Inl NoNextState
      | Inr (Some next) \<Rightarrow>
          Inr (c\<lparr>currentState := next, notified := notified c @ listeners c\<rparr>))"

text \<open>
  Modelled from the spec: \<^verbatim>\<open>subscribe(listener)\<close>, missing with the container's
  code. It "registers listener; returns a handle that, when invoked, removes exactly
  that registration. Subscribing the same listener object twice creates two independent
  registrations". The handle is returned with the new container.
\<close>

definition subscribe :: "('s, 'l) container \<Rightarrow> 'l \<Rightarrow> nat \<times> ('s, 'l) container" where
  "subscribe c l =
     (nextHandle c,
      c\<lparr>listeners := listeners c @ [(nextHandle c, l)], nextHandle := Suc (nextHandle c)\<rparr>)"

text \<open>
  Modelled from the spec: invoking the handle that \<^verbatim>\<open>subscribe\<close> returned,
  missing with the container's code. It "removes exactly that registration".
\<close>

definition unsubscribe :: "('s, 'l) container \<Rightarrow> nat \<Rightarrow> ('s, 'l) container" where
  "unsubscribe c h = c\<lparr>listeners := filter (\<lambda>r. fst r \<noteq> h) (listeners c)\<rparr>"

subsection \<open>The store of the program\<close>

text \<open>
  \<^verbatim>\<open>const store = createStore(reducer)\<close>. The module subscribes two functions,
  \<^verbatim>\<open>render\<close> and \<^verbatim>\<open>listener\<close>.
\<close>

datatype callback = Render | Listener

definition store :: "error + (state, callback) container" where
  "store = create (returning reducer) None"

text \<open>The store in a given configuration.\<close>

definition store_with ::
  "state \<Rightarrow> (nat \<times> callback) list \<Rightarrow> nat \<Rightarrow> (nat \<times> callback) list \<Rightarrow>
   (state, callback) container" where
  "store_with s ls n log =
     \<lparr>transitionFn = returning reducer, currentState = s, listeners = ls, nextHandle = n,
      notified = log\<rparr>"

subsection \<open>Histories\<close>

text \<open>
  What the callers of a container do to it, one call after the other. A dispatch that
  fails ends the history with its error, as the exception would.
\<close>

datatype 'l event = Dispatch action | Subscribe 'l | Unsubscribe nat

fun run :: "('s, 'l) container \<Rightarrow> 'l event list \<Rightarrow> error + ('s, 'l) container" where
  "run c [] = Inr c"
| "run c (Dispatch a # evs) =
     (case dispatch c (Some a) of Inl e \<Rightarrow> Inl e | Inr c' \<Rightarrow> run c' evs)"
| "run c (Subscribe l # evs) = run (snd (subscribe c l)) evs"
| "run c (Unsubscribe h # evs) = run (unsubscribe c h) evs"

text \<open>The actions dispatched in a history, in order.\<close>

fun dispatched :: "'l event list \<Rightarrow> action list" where
  "dispatched [] = []"
| "dispatched (Dispatch a # evs) = a # dispatched evs"
| "dispatched (_ # evs) = dispatched evs"

text \<open>The left fold of the reducer over a list of actions.\<close>

definition replay :: "state \<Rightarrow> action list \<Rightarrow> error + state" where
  "replay s as =
     foldl (\<lambda>acc a. case acc of Inl e \<Rightarrow> Inl e | Inr s \<Rightarrow> reducer (Some s) (Some a))
       (Inr s) as"

text \<open>
  An action on which the addition of the reducer raises no error when the counter is a
  number: it is no \<^verbatim>\<open>INCREASE\<close> action, or its \<^verbatim>\<open>difference\<close> is
  neither a BigInt nor a symbol.
\<close>

definition plain :: "'p action_scheme \<Rightarrow> bool" where
  "plain a = (type a \<noteq> Some INCREASE \<or> number_like (difference a))"

text \<open>
  A registry in order: its handles increase along the list, and each of them was given
  out already. Handles are given out in increasing order, so a registry sorted by handle
  is in the order of subscription.
\<close>

definition registry_ok :: "('s, 'l) container \<Rightarrow> bool" where
  "registry_ok c =
     (sorted_wrt (<) (map fst (listeners c)) \<and>
      list_all (\<lambda>r. fst r < nextHandle c) (listeners c))"

text \<open>Every registration of the listener \<open>l\<close> in a registry has the handle \<open>h\<close>.\<close>

definition only_handle :: "nat \<Rightarrow> 'l \<Rightarrow> (nat \<times> 'l) list \<Rightarrow> bool" where
  "only_handle h l xs = list_all (\<lambda>r. snd r \<noteq> l \<or> fst r = h) xs"

section \<open>Properties of the reducer\<close>

lemma round_double_exact: "\<bar>z\<bar> \<le> 2 ^ 53 \<Longrightarrow> round_double z = Finite z"
  by (simp add: round_double_def)

lemma js_plus_numbers: "js_plus (Number x) (Number y) = Inr (Number (number_add x y))"
  by (simp add: js_plus_def)

lemma js_minus_numbers: "js_minus (Number x) (Number y) = Inr (Number (number_subtract x y))"
  by (simp add: js_minus_def)

lemma js_plus_number_like:
  "number_like x \<Longrightarrow> number_like y \<Longrightarrow> \<exists>n. js_plus x y = Inr (Number n)"
  by (cases x; cases y) (simp_all add: js_plus_def)

lemma js_minus_number_like: "number_like x \<Longrightarrow> \<exists>n. js_minus x (Number y) = Inr (Number n)"
  by (cases x) (simp_all add: js_minus_def)



lemma to_numeric_error: "to_numeric x = Inl e \<Longrightarrow> e = TypeError"
  by (cases x) simp_all

lemma numeric_add_error: "numeric_add a b = Inl e \<Longrightarrow> e = TypeError"
  by (cases a; cases b) simp_all

lemma numeric_subtract_error: "numeric_subtract a b = Inl e \<Longrightarrow> e = TypeError"
  by (cases a; cases b) simp_all

lemma js_plus_error: "js_plus x y = Inl e \<Longrightarrow> e = TypeError"
  by (auto simp add: js_plus_def split: sum.splits
      dest: to_numeric_error numeric_add_error)

lemma js_minus_error: "js_minus x y = Inl e \<Longrightarrow> e = TypeError"
  by (auto simp add: js_minus_def split: sum.splits
      dest: to_numeric_error numeric_subtract_error)

lemma action_types_distinct:
  "TOGGLE_SWITCH \<noteq> INCREASE" "TOGGLE_SWITCH \<noteq> DECREASE" "INCREASE \<noteq> DECREASE"
  "INCREASE \<noteq> TOGGLE_SWITCH" "DECREASE \<noteq> TOGGLE_SWITCH" "DECREASE \<noteq> INCREASE"
  by (simp_all add: TOGGLE_SWITCH_def INCREASE_def DECREASE_def)

lemma reducer_toggle:
  "type a = Some TOGGLE_SWITCH \<Longrightarrow> reducer (Some s) (Some a) = Inr (s\<lparr>toggle := \<not> toggle s\<rparr>)"
  by (simp add: reducer_def)

lemma reducer_increase:
  "type a = Some INCREASE \<Longrightarrow>
   reducer (Some s) (Some a) =
     (case js_plus (counter s) (difference a) of
        Inl e \<Rightarrow> Inl e
      | Inr v \<Rightarrow> Inr (s\<lparr>counter := v\<rparr>))"
  by (simp add: reducer_def action_types_distinct)

lemma reducer_decrease:
  "type a = Some DECREASE \<Longrightarrow>
   reducer (Some s) (Some a) =
     (case js_minus (counter s) (Number (Finite 1)) of
        Inl e \<Rightarrow> Inl e
      | Inr v \<Rightarrow> Inr (s\<lparr>counter := v\<rparr>))"
  by (simp add: reducer_def action_types_distinct)

lemma reducer_default:
  "type a \<noteq> Some TOGGLE_SWITCH \<Longrightarrow> type a \<noteq> Some INCREASE \<Longrightarrow> type a \<noteq> Some DECREASE \<Longrightarrow>
   reducer (Some s) (Some a) = Inr s"
  by (simp add: reducer_def)

lemma reducer_undefined_state: "reducer None a = reducer (Some initialState) a"
  by (simp add: reducer_def)

lemma reducer_undefined_action: "reducer s None = Inl TypeError"
  by (simp add: reducer_def)

text \<open>
  Claim C2. From the initial state \<^verbatim>\<open>{toggle: false, counter: 0}\<close>, the reducer
  applied to a toggle action gives \<^verbatim>\<open>{toggle: true, counter: 0}\<close>; applied then to
  an increase action with difference 3 it gives \<^verbatim>\<open>{toggle: true, counter: 3}\<close>;
  applied then to a decrease action it gives \<^verbatim>\<open>{toggle: true, counter: 2}\<close>.
\<close>

theorem reducer_scenario:
  "initialState = \<lparr>toggle = False, counter = Number (Finite 0)\<rparr> \<and>
   reducer (Some initialState) (Some toggleSwitch)
     = Inr \<lparr>toggle = True, counter = Number (Finite 0)\<rparr> \<and>
   reducer (Some \<lparr>toggle = True, counter = Number (Finite 0)\<rparr>) (Some (increase (Number (Finite 3))))
     = Inr \<lparr>toggle = True, counter = Number (Finite 3)\<rparr> \<and>
   reducer (Some \<lparr>toggle = True, counter = Number (Finite 3)\<rparr>) (Some decrease)
     = Inr \<lparr>toggle = True, counter = Number (Finite 2)\<rparr>"
  by (simp add: reducer_def initialState_def toggleSwitch_def increase_def decrease_def
      action_types_distinct js_plus_numbers js_minus_numbers number_subtract_def
      round_double_exact)




text \<open>
  Claim C4. For every state and every action whose \<^verbatim>\<open>type\<close> is none of
  \<^verbatim>\<open>TOGGLE_SWITCH\<close>, \<^verbatim>\<open>INCREASE\<close>, \<^verbatim>\<open>DECREASE\<close> (an absent
  \<^verbatim>\<open>type\<close> included), the reducer returns the state it was given, unchanged.
\<close>

theorem unknown_action_returns_state:
  "type a \<notin> {Some TOGGLE_SWITCH, Some INCREASE, Some DECREASE} \<Longrightarrow>
   reducer (Some s) (Some a) = Inr s"
  by (simp add: reducer_default)

theorem unknown_action_returns_state_witness:
  "type \<lparr>type = Some ''RESET'', difference = Number (Finite 1)\<rparr>
     \<notin> {Some TOGGLE_SWITCH, Some INCREASE, Some DECREASE} \<and>
   reducer (Some \<lparr>toggle = True, counter = Number (Finite 4)\<rparr>)
     (Some \<lparr>type = Some ''RESET'', difference = Number (Finite 1)\<rparr>)
     = Inr \<lparr>toggle = True, counter = Number (Finite 4)\<rparr>"
proof -
  have h: "type \<lparr>type = Some ''RESET'', difference = Number (Finite 1)\<rparr>
     \<notin> {Some TOGGLE_SWITCH, Some INCREASE, Some DECREASE}"
    by (simp add: TOGGLE_SWITCH_def INCREASE_def DECREASE_def)
  show ?thesis
    using h unknown_action_returns_state [OF h] by simp
qed

text \<open>
  Claim C10. Applying the reducer twice with the action made by
  \<^verbatim>\<open>toggleSwitch()\<close> gives back the state it started from, for every state.
\<close>

theorem toggle_twice_is_identity:
  "\<exists>s1. reducer (Some s) (Some toggleSwitch) = Inr s1 \<and>
         reducer (Some s1) (Some toggleSwitch) = Inr s"
proof -
  have t: "type toggleSwitch = Some TOGGLE_SWITCH"
    by (simp add: toggleSwitch_def)
  have "reducer (Some (s\<lparr>toggle := \<not> toggle s\<rparr>)) (Some toggleSwitch) = Inr s"
    by (simp add: reducer_toggle [OF t])
  with reducer_toggle [OF t, of s] show ?thesis
    by blast
qed

section \<open>Properties of the reducer on references\<close>

lemma returned_reducer_ref:
  "live h state \<Longrightarrow> returned (reducer_ref h state action) = reducer (argument h state) action"
  by (cases state; cases action)
     (simp_all add: returned_def reducer_ref_def reducer_def argument_def live_def alloc_def
        Let_def split: sum.splits)

lemma reducer_ref_result:
  "reducer_ref h state (Some a) = Inr (r, h') \<Longrightarrow>
   r = (case state of None \<Rightarrow> initialState_ref | Some p \<Rightarrow> p) \<and> h' = h \<or>
   r = length h \<and> h' = h @ [h' ! r]"
  by (auto simp add: reducer_ref_def alloc_def Let_def split: if_splits sum.splits)

lemma reducer_ref_live:
  "reducer_ref h state action = Inr (r, h') \<Longrightarrow> live h state \<Longrightarrow> live h' (Some r)"
  by (cases state; cases action)
     (auto simp add: reducer_ref_def live_def alloc_def nth_append Let_def
        split: if_splits sum.splits)

lemma reducer_error: "reducer state action = Inl e \<Longrightarrow> e = TypeError"
  by (auto simp add: reducer_def Let_def split: option.splits if_splits sum.splits
      dest: js_plus_error js_minus_error)

lemma reducer_keeps_toggle:
  "type u = Some INCREASE \<or> type u = Some DECREASE \<Longrightarrow>
   reducer (Some s) (Some u) = Inr s' \<Longrightarrow> toggle s' = toggle s"
  by (auto simp add: reducer_increase reducer_decrease split: sum.splits)

lemma reducer_number_like:
  assumes "number_like (counter s)" and "plain a"
  shows "\<exists>s'. reducer (Some s) (Some a) = Inr s' \<and> number_like (counter s')"
proof (cases "type a = Some INCREASE")
  case True
  with assms have "number_like (difference a)"
    by (simp add: plain_def)
  with assms(1) obtain n where "js_plus (counter s) (difference a) = Inr (Number n)"
    using js_plus_number_like by blast
  with True show ?thesis
    by (simp add: reducer_increase)
next
  case False
  show ?thesis
  proof (cases "type a = Some DECREASE")
    case True
    from assms(1) obtain n where "js_minus (counter s) (Number (Finite 1)) = Inr (Number n)"
      using js_minus_number_like by blast
    with True show ?thesis
      by (simp add: reducer_decrease)
  next
    case False
    with \<open>type a \<noteq> Some INCREASE\<close> assms(1) show ?thesis
      by (simp add: reducer_def)
  qed
qed

text \<open>
  Claim C7. The reducer never changes the state object it is given, and each transition
  changes one field only. A \<^verbatim>\<open>TOGGLE_SWITCH\<close> action leaves the counter as it
  was. An \<^verbatim>\<open>INCREASE\<close> or \<^verbatim>\<open>DECREASE\<close> action leaves the toggle as it
  was in the state that the reducer returns; it does return one when the counter and the
  \<^verbatim>\<open>difference\<close> are neither BigInts nor symbols, and when it returns none it
  has raised a \<open>TypeError\<close>. On references: every object that existed before the call
  is unchanged after it; the call returns either the reference it was given, with the
  heap as it was, or the reference of one new object; the object it returns has the
  value that the reducer computes from the value of its argument; a call that raises
  an error is one on which the reducer raises that error; and the call returns when the
  counter of its argument is neither a BigInt nor a symbol and the action is no
  \<^verbatim>\<open>INCREASE\<close> with such a \<^verbatim>\<open>difference\<close>.
\<close>

theorem reducer_writes_one_field_of_a_new_object:
  assumes "live h state"
  shows "(type t = Some TOGGLE_SWITCH \<longrightarrow>
            (\<exists>s'. reducer (Some s) (Some t) = Inr s' \<and> counter s' = counter s)) \<and>
         (type u = Some INCREASE \<or> type u = Some DECREASE \<longrightarrow>
            (case reducer (Some s) (Some u) of
               Inl e \<Rightarrow> e = TypeError
             | Inr s' \<Rightarrow> toggle s' = toggle s) \<and>
            (number_like (counter s) \<and> number_like (difference u) \<longrightarrow>
               (\<exists>s'. reducer (Some s) (Some u) = Inr s' \<and> toggle s' = toggle s))) \<and>
         (case reducer_ref h state (Some a) of
            Inl e \<Rightarrow> reducer (argument h state) (Some a) = Inl e
          | Inr (r, h') \<Rightarrow>
              take (length h) h' = h \<and>
              (r = (case state of None \<Rightarrow> initialState_ref | Some p \<Rightarrow> p) \<and> h' = h \<or>
               r = length h \<and> h' = h @ [h' ! r]) \<and>
              reducer (argument h state) (Some a) = Inr (h' ! r)) \<and>
         (number_like (counter (h ! (case state of None \<Rightarrow> initialState_ref | Some p \<Rightarrow> p))) \<and>
          plain a \<longrightarrow>
            (\<exists>r h'. reducer_ref h state (Some a) = Inr (r, h')))"
proof (intro conjI impI)
  assume "type t = Some TOGGLE_SWITCH"
  then show "\<exists>s'. reducer (Some s) (Some t) = Inr s' \<and> counter s' = counter s"
    by (simp add: reducer_toggle)
next
  assume u: "type u = Some INCREASE \<or> type u = Some DECREASE"
  show "case reducer (Some s) (Some u) of Inl e \<Rightarrow> e = TypeError | Inr s' \<Rightarrow> toggle s' = toggle s"
    using reducer_error reducer_keeps_toggle [OF u] by (auto split: sum.splits)
  assume "number_like (counter s) \<and> number_like (difference u)"
  then obtain s' where "reducer (Some s) (Some u) = Inr s'"
    using reducer_number_like [of s u] by (auto simp add: plain_def)
  with reducer_keeps_toggle [OF u] show "\<exists>s'. reducer (Some s) (Some u) = Inr s' \<and> toggle s' = toggle s"
    by blast
next
  show "case reducer_ref h state (Some a) of
          Inl e \<Rightarrow> reducer (argument h state) (Some a) = Inl e
        | Inr (r, h') \<Rightarrow>
            take (length h) h' = h \<and>
            (r = (case state of None \<Rightarrow> initialState_ref | Some p \<Rightarrow> p) \<and> h' = h \<or>
             r = length h \<and> h' = h @ [h' ! r]) \<and>
            reducer (argument h state) (Some a) = Inr (h' ! r)"
  proof (cases "reducer_ref h state (Some a)")
    case (Inl e)
    with returned_reducer_ref [OF assms, of "Some a"] show ?thesis
      by (simp add: returned_def)
  next
    case (Inr p)
    obtain r h' where p: "p = (r, h')"
      by (cases p)
    from Inr p have res: "reducer_ref h state (Some a) = Inr (r, h')"
      by simp
    from reducer_ref_result [OF res]
    have shape: "r = (case state of None \<Rightarrow> initialState_ref | Some p \<Rightarrow> p) \<and> h' = h \<or>
       r = length h \<and> h' = h @ [h' ! r]" .
    have "take (length h) h' = h"
      using shape by (metis append_eq_conv_conj order_refl take_all)
    moreover have "reducer (argument h state) (Some a) = Inr (h' ! r)"
      using returned_reducer_ref [OF assms, of "Some a"] res by (simp add: returned_def)
    ultimately show ?thesis
      using res shape by simp
  qed
next
  assume n: "number_like (counter (h ! (case state of None \<Rightarrow> initialState_ref | Some p \<Rightarrow> p))) \<and>
    plain a"
  have "argument h state = None \<or>
    argument h state = Some (h ! (case state of None \<Rightarrow> initialState_ref | Some p \<Rightarrow> p))"
    by (cases state) (simp_all add: argument_def)
  moreover have "h ! (case state of None \<Rightarrow> initialState_ref | Some p \<Rightarrow> p) = initialState"
    if "argument h state = None"
    using that assms by (cases state) (simp_all add: argument_def live_def)
  ultimately have "reducer (argument h state) (Some a) =
    reducer (Some (h ! (case state of None \<Rightarrow> initialState_ref | Some p \<Rightarrow> p))) (Some a)"
    by (auto simp add: reducer_undefined_state)
  with n obtain s' where "reducer (argument h state) (Some a) = Inr s'"
    using reducer_number_like by metis
  with returned_reducer_ref [OF assms, of "Some a"]
  show "\<exists>r h'. reducer_ref h state (Some a) = Inr (r, h')"
    by (cases "reducer_ref h state (Some a)") (auto simp add: returned_def)
qed

theorem reducer_writes_one_field_of_a_new_object_witness:
  "live [initialState, \<lparr>toggle = True, counter = Number (Finite 3)\<rparr>] (Some 1) \<and>
   type toggleSwitch = Some TOGGLE_SWITCH \<and>
   (\<exists>s'. reducer (Some \<lparr>toggle = True, counter = Number (Finite 3)\<rparr>) (Some toggleSwitch) = Inr s' \<and>
      counter s' = Number (Finite 3)) \<and>
   (type (increase (Number (Finite 2))) = Some INCREASE \<or>
    type (increase (Number (Finite 2))) = Some DECREASE) \<and>
   number_like (counter \<lparr>toggle = True, counter = Number (Finite 3)\<rparr>) \<and>
   number_like (difference (increase (Number (Finite 2)))) \<and>
   plain (increase (Number (Finite 2))) \<and>
   (\<exists>s'. reducer (Some \<lparr>toggle = True, counter = Number (Finite 3)\<rparr>)
            (Some (increase (Number (Finite 2)))) = Inr s' \<and> toggle s' = True) \<and>
   reducer_ref [initialState, \<lparr>toggle = True, counter = Number (Finite 3)\<rparr>] (Some 1)
       (Some (increase (Number (Finite 2))))
     = Inr (2, [initialState, \<lparr>toggle = True, counter = Number (Finite 3)\<rparr>,
                \<lparr>toggle = True, counter = Number (Finite 5)\<rparr>])"
proof -
  have l: "live [initialState, \<lparr>toggle = True, counter = Number (Finite 3)\<rparr>] (Some 1)"
    by (simp add: live_def initialState_ref_def)
  have t: "type toggleSwitch = Some TOGGLE_SWITCH"
    by (simp add: toggleSwitch_def)
  have u: "type (increase (Number (Finite 2))) = Some INCREASE"
    by (simp add: increase_def)
  have n: "number_like (difference (increase (Number (Finite 2))))"
    by (simp add: increase_def)
  have p: "plain (increase (Number (Finite 2)))"
    by (simp add: plain_def increase_def)
  have r: "reducer_ref [initialState, \<lparr>toggle = True, counter = Number (Finite 3)\<rparr>] (Some 1)
       (Some (increase (Number (Finite 2))))
     = Inr (2, [initialState, \<lparr>toggle = True, counter = Number (Finite 3)\<rparr>,
                \<lparr>toggle = True, counter = Number (Finite 5)\<rparr>])"
    by (simp add: reducer_ref_def alloc_def u action_types_distinct increase_def
        js_plus_numbers round_double_exact)
  show ?thesis
    using reducer_writes_one_field_of_a_new_object
      [OF l, of toggleSwitch "\<lparr>toggle = True, counter = Number (Finite 3)\<rparr>"
         "increase (Number (Finite 2))" "increase (Number (Finite 2))"] l t u n p r
    by simp
qed

text \<open>
  Claim C8. The reducer is deterministic and reads nothing but its two parameters: in
  any two heaps, two calls whose state arguments are equal by value (or both
  \<^verbatim>\<open>undefined\<close>) and whose actions are equal return equal results. What the
  reducer reads besides its parameters are the constants of the module, the three action
  types and \<^verbatim>\<open>initialState\<close>.
\<close>

theorem reducer_result_depends_only_on_arguments:
  assumes "live h1 state1" and "live h2 state2"
    and "argument h1 state1 = argument h2 state2" and "action1 = action2"
  shows "returned (reducer_ref h1 state1 action1) = returned (reducer_ref h2 state2 action2) \<and>
         reducer (argument h1 state1) action1 = reducer (argument h2 state2) action2"
  using assms by (simp add: returned_reducer_ref)

theorem reducer_result_depends_only_on_arguments_witness:
  "live module_heap (Some 0) \<and>
   live [initialState, \<lparr>toggle = True, counter = Number (Finite 3)\<rparr>, initialState] (Some 2) \<and>
   argument module_heap (Some 0)
     = argument [initialState, \<lparr>toggle = True, counter = Number (Finite 3)\<rparr>, initialState] (Some 2) \<and>
   returned (reducer_ref module_heap (Some 0) (Some toggleSwitch))
     = returned (reducer_ref [initialState, \<lparr>toggle = True, counter = Number (Finite 3)\<rparr>, initialState]
         (Some 2) (Some toggleSwitch)) \<and>
   returned (reducer_ref module_heap (Some 0) (Some toggleSwitch))
     = Inr \<lparr>toggle = True, counter = Number (Finite 0)\<rparr>"
proof -
  have l1: "live module_heap (Some 0)"
    by (simp add: live_def module_heap_def initialState_ref_def)
  have l2: "live [initialState, \<lparr>toggle = True, counter = Number (Finite 3)\<rparr>, initialState] (Some 2)"
    by (simp add: live_def initialState_ref_def)
  have a: "argument module_heap (Some 0)
     = argument [initialState, \<lparr>toggle = True, counter = Number (Finite 3)\<rparr>, initialState] (Some 2)"
    by (simp add: argument_def module_heap_def)
  have v: "returned (reducer_ref module_heap (Some 0) (Some toggleSwitch))
     = Inr \<lparr>toggle = True, counter = Number (Finite 0)\<rparr>"
    by (simp add: returned_def reducer_ref_def alloc_def module_heap_def toggleSwitch_def
        initialState_def)
  show ?thesis
    using reducer_result_depends_only_on_arguments [OF l1 l2 a refl, of "Some toggleSwitch"]
      l1 l2 a v
    by simp
qed

section \<open>Properties of the container with the reducer\<close>

lemma dispatch_reducer:
  assumes "transitionFn c = returning reducer"
    and "reducer (Some (currentState c)) (Some a) = Inr s'"
  shows "dispatch c (Some a) = Inr (c\<lparr>currentState := s', notified := notified c @ listeners c\<rparr>)"
  using assms by (simp add: dispatch_def returning_def)

lemma dispatch_reducer_error:
  assumes "transitionFn c = returning reducer"
    and "reducer (Some (currentState c)) (Some a) = Inl e"
  shows "dispatch c (Some a) = Inl e"
  using assms by (simp add: dispatch_def returning_def)

lemma replay_step: "reducer (Some s) (Some a) = Inr s' \<Longrightarrow> replay s (a # as) = replay s' as"
  by (simp add: replay_def)

lemma foldl_error:
  "foldl (\<lambda>acc a. case acc of Inl e \<Rightarrow> Inl e | Inr s \<Rightarrow> reducer (Some s) (Some a)) (Inl e) as
     = Inl e"
  by (induction as) simp_all

lemma replay_error: "reducer (Some s) (Some a) = Inl e \<Longrightarrow> replay s (a # as) = Inl e"
  by (simp add: replay_def foldl_error)

lemma run_reducer:
  "transitionFn c = returning reducer \<Longrightarrow>
   map_sum id getState (run c evs) = replay (getState c) (dispatched evs)"
proof (induction evs arbitrary: c)
  case Nil
  then show ?case by (simp add: replay_def)
next
  case (Cons ev evs)
  show ?case
  proof (cases ev)
    case (Dispatch a)
    show ?thesis
    proof (cases "reducer (Some (currentState c)) (Some a)")
      case (Inl e)
      with Cons.prems have "dispatch c (Some a) = Inl e"
        by (rule dispatch_reducer_error)
      with Inl Dispatch show ?thesis
        by (simp add: getState_def replay_error)
    next
      case (Inr s')
      let ?c = "c\<lparr>currentState := s', notified := notified c @ listeners c\<rparr>"
      have d: "dispatch c (Some a) = Inr ?c"
        using Cons.prems Inr by (rule dispatch_reducer)
      have "transitionFn ?c = returning reducer"
        using Cons.prems by simp
      from Cons.IH [OF this] show ?thesis
        using Dispatch d Inr by (simp add: getState_def replay_step)
    qed
  next
    case (Subscribe l)
    have "transitionFn (snd (subscribe c l)) = returning reducer"
      using Cons.prems by (simp add: subscribe_def)
    from Cons.IH [OF this] show ?thesis
      using Subscribe by (simp add: getState_def subscribe_def)
  next
    case (Unsubscribe h)
    have "transitionFn (unsubscribe c h) = returning reducer"
      using Cons.prems by (simp add: unsubscribe_def)
    from Cons.IH [OF this] show ?thesis
      using Unsubscribe by (simp add: getState_def unsubscribe_def)
  qed
qed

lemma run_plain:
  "transitionFn c = returning reducer \<Longrightarrow> number_like (counter (currentState c)) \<Longrightarrow>
   list_all plain (dispatched evs) \<Longrightarrow> \<exists>c'. run c evs = Inr c'"
proof (induction evs arbitrary: c)
  case Nil
  then show ?case by simp
next
  case (Cons ev evs)
  show ?case
  proof (cases ev)
    case (Dispatch a)
    with Cons.prems have "plain a" and rest: "list_all plain (dispatched evs)"
      by simp_all
    with Cons.prems(2) obtain s' where s': "reducer (Some (currentState c)) (Some a) = Inr s'"
      and n: "number_like (counter s')"
      using reducer_number_like by blast
    let ?c = "c\<lparr>currentState := s', notified := notified c @ listeners c\<rparr>"
    have d: "dispatch c (Some a) = Inr ?c"
      using Cons.prems(1) s' by (rule dispatch_reducer)
    have "transitionFn ?c = returning reducer" "number_like (counter (currentState ?c))"
      using Cons.prems(1) n by simp_all
    from Cons.IH [OF this rest] show ?thesis
      using Dispatch d by simp
  next
    case (Subscribe l)
    have "transitionFn (snd (subscribe c l)) = returning reducer"
      "number_like (counter (currentState (snd (subscribe c l))))"
      using Cons.prems by (simp_all add: subscribe_def)
    moreover have "list_all plain (dispatched evs)"
      using Cons.prems Subscribe by simp
    ultimately show ?thesis
      using Subscribe Cons.IH by simp
  next
    case (Unsubscribe h)
    have "transitionFn (unsubscribe c h) = returning reducer"
      "number_like (counter (currentState (unsubscribe c h)))"
      using Cons.prems by (simp_all add: unsubscribe_def)
    moreover have "list_all plain (dispatched evs)"
      using Cons.prems Unsubscribe by simp
    ultimately show ?thesis
      using Unsubscribe Cons.IH by simp
  qed
qed

lemma create_reducer:
  "create (returning reducer) None =
     Inr \<lparr>transitionFn = returning reducer, currentState = initialState, listeners = [],
          nextHandle = 0, notified = []\<rparr>"
  by (simp add: create_def returning_def reducer_def INIT_def TOGGLE_SWITCH_def INCREASE_def
      DECREASE_def)

lemma store_created: "store = Inr (store_with initialState [] 0 [])"
  by (simp add: store_def store_with_def create_reducer)

text \<open>
  Claim C1. A container is created with the reducer and no initial state, and its
  callers dispatch actions to it, subscribe and unsubscribe, in any order. After every
  such history \<^verbatim>\<open>getState()\<close> is the left fold of the reducer over the actions
  dispatched so far, in order, starting from \<^verbatim>\<open>{toggle: false, counter: 0}\<close>;
  and a history ends with the error of a dispatch exactly when the fold does. When no
  dispatched action is an \<^verbatim>\<open>INCREASE\<close> whose \<^verbatim>\<open>difference\<close> is a
  BigInt or a symbol, every dispatch succeeds. A history of dispatches alone is a
  special case.
\<close>

theorem state_is_fold_of_dispatched_actions:
  "\<exists>c0. create (returning reducer) None = Inr c0 \<and>
     getState c0 = \<lparr>toggle = False, counter = Number (Finite 0)\<rparr> \<and>
     map_sum id getState (run c0 evs) =
       foldl (\<lambda>acc a. case acc of Inl e \<Rightarrow> Inl e | Inr s \<Rightarrow> reducer (Some s) (Some a))
         (Inr \<lparr>toggle = False, counter = Number (Finite 0)\<rparr>) (dispatched evs) \<and>
     (list_all plain (dispatched evs) \<longrightarrow>
        (\<exists>c. run c0 evs = Inr c \<and>
           Inr (getState c) =
             foldl (\<lambda>acc a. case acc of Inl e \<Rightarrow> Inl e | Inr s \<Rightarrow> reducer (Some s) (Some a))
               (Inr \<lparr>toggle = False, counter = Number (Finite 0)\<rparr>) (dispatched evs)))"
proof -
  let ?c0 = "\<lparr>transitionFn = returning reducer, currentState = initialState, listeners = [],
          nextHandle = 0, notified = []\<rparr> :: (state, 'a) container"
  have t: "transitionFn ?c0 = returning reducer"
    by simp
  have n: "number_like (counter (currentState ?c0))"
    by (simp add: initialState_def)
  have fold: "map_sum id getState (run ?c0 evs) = replay (getState ?c0) (dispatched evs)"
    using t by (rule run_reducer)
  have "\<exists>c. run ?c0 evs = Inr c \<and> Inr (getState c) = replay (getState ?c0) (dispatched evs)"
    if "list_all plain (dispatched evs)"
  proof -
    from run_plain [OF t n that] obtain c where "run ?c0 evs = Inr c"
      by blast
    with fold show ?thesis
      by simp
  qed
  with fold show ?thesis
    by (simp add: create_reducer getState_def replay_def initialState_def)
qed

theorem state_is_fold_of_dispatched_actions_witness:
  "list_all plain
     (dispatched [Dispatch toggleSwitch, Subscribe Render, Dispatch (increase (Number (Finite 1)))]) \<and>
   run (store_with initialState [] 0 [])
     [Dispatch toggleSwitch, Subscribe Render, Dispatch (increase (Number (Finite 1)))] =
     Inr (store_with \<lparr>toggle = True, counter = Number (Finite 1)\<rparr> [(0, Render)] 1
            [(0, Render)]) \<and>
   foldl (\<lambda>acc a. case acc of Inl e \<Rightarrow> Inl e | Inr s \<Rightarrow> reducer (Some s) (Some a))
     (Inr \<lparr>toggle = False, counter = Number (Finite 0)\<rparr>)
     [toggleSwitch, increase (Number (Finite 1))] =
     Inr \<lparr>toggle = True, counter = Number (Finite 1)\<rparr>"
proof -
  have p: "list_all plain
     (dispatched [Dispatch toggleSwitch, Subscribe Render, Dispatch (increase (Number (Finite 1)))])"
    by (simp add: plain_def toggleSwitch_def increase_def action_types_distinct)
  have r: "run (store_with initialState [] 0 [])
     [Dispatch toggleSwitch, Subscribe Render, Dispatch (increase (Number (Finite 1)))] =
     Inr (store_with \<lparr>toggle = True, counter = Number (Finite 1)\<rparr> [(0, Render)] 1
            [(0, Render)])"
    by (simp add: dispatch_def store_with_def returning_def reducer_def action_types_distinct
        subscribe_def toggleSwitch_def increase_def initialState_def js_plus_numbers
        round_double_exact)
  show ?thesis
    using state_is_fold_of_dispatched_actions
      [of "[Dispatch toggleSwitch, Subscribe Render, Dispatch (increase (Number (Finite 1)))]"]
      p r
    by (simp add: create_reducer store_with_def getState_def)
qed

text \<open>
  Claim C5. Invoked with an \<^verbatim>\<open>undefined\<close> state the reducer works on
  \<^verbatim>\<open>initialState\<close>, which is \<^verbatim>\<open>{toggle: false, counter: 0}\<close>; so a
  container created with the reducer and no initial state has that current state, and
  has notified nobody, before any action of the application is dispatched.
\<close>

theorem absent_state_is_initialState:
  "reducer None a = reducer (Some initialState) a \<and>
   initialState = \<lparr>toggle = False, counter = Number (Finite 0)\<rparr> \<and>
   (\<exists>c. create (returning reducer) None = Inr c \<and>
      getState c = \<lparr>toggle = False, counter = Number (Finite 0)\<rparr> \<and> notified c = [])"
  by (simp add: reducer_undefined_state create_reducer getState_def initialState_def)




section \<open>Subscriptions\<close>

lemma count_list_distinct: "distinct xs \<Longrightarrow> x \<in> set xs \<Longrightarrow> count_list xs x = 1"
  by (induction xs) (auto simp add: count_list_0_iff)

lemma registry_ok_create: "create f init = Inr c \<Longrightarrow> registry_ok c"
  by (auto simp add: create_def registry_ok_def split: option.splits sum.splits)

lemma dispatch_registry:
  "dispatch c a = Inr c' \<Longrightarrow>
   listeners c' = listeners c \<and> nextHandle c' = nextHandle c \<and>
   notified c' = notified c @ listeners c"
  by (auto simp add: dispatch_def split: option.splits sum.splits)

lemma registry_ok_dispatch: "dispatch c a = Inr c' \<Longrightarrow> registry_ok c \<Longrightarrow> registry_ok c'"
  by (simp add: registry_ok_def dispatch_registry)

lemma registry_ok_subscribe: "registry_ok c \<Longrightarrow> registry_ok (snd (subscribe c l))"
  by (auto simp add: subscribe_def registry_ok_def sorted_wrt_append list_all_iff less_Suc_eq)

lemma registry_ok_unsubscribe: "registry_ok c \<Longrightarrow> registry_ok (unsubscribe c h)"
  by (auto simp add: unsubscribe_def registry_ok_def list_all_iff sorted_wrt_map
      intro: sorted_wrt_filter)

lemma registry_ok_run: "run c evs = Inr c' \<Longrightarrow> registry_ok c \<Longrightarrow> registry_ok c'"
proof (induction c evs rule: run.induct)
  case (2 c a evs)
  then show ?case
    by (auto split: sum.splits dest: registry_ok_dispatch)
qed (auto intro: registry_ok_subscribe registry_ok_unsubscribe)

lemma stays_registered:
  "run c evs = Inr c' \<Longrightarrow> Unsubscribe h \<notin> set evs \<Longrightarrow> (h, l) \<in> set (listeners c) \<Longrightarrow>
   (h, l) \<in> set (listeners c')"
proof (induction c evs rule: run.induct)
  case (2 c a evs)
  then show ?case
    by (auto split: sum.splits dest: dispatch_registry)
next
  case (3 c k evs)
  then show ?case by (simp add: subscribe_def)
next
  case (4 c k evs)
  then show ?case by (simp add: unsubscribe_def)
qed simp

lemma stays_removed:
  "run c evs = Inr c' \<Longrightarrow> h < nextHandle c \<Longrightarrow> h \<notin> fst ` set (listeners c) \<Longrightarrow>
   h \<notin> fst ` set (listeners c')"
proof (induction c evs rule: run.induct)
  case (2 c a evs)
  from "2.prems"(1) obtain c1 where d: "dispatch c (Some a) = Inr c1" and r: "run c1 evs = Inr c'"
    by (auto split: sum.splits)
  from dispatch_registry [OF d] "2.prems"
  have "h < nextHandle c1" "h \<notin> fst ` set (listeners c1)"
    by simp_all
  with "2.IH" [OF d r] show ?case .
next
  case (3 c k evs)
  then show ?case by (simp add: subscribe_def)
next
  case (4 c k evs)
  then show ?case by (auto simp add: unsubscribe_def)
qed simp

lemma unsubscribe_twice: "unsubscribe (unsubscribe c h) h = unsubscribe c h"
  by (simp add: unsubscribe_def)

lemmas store_eval =
  dispatch_def store_with_def returning_def reducer_def action_types_distinct
  js_plus_numbers js_minus_numbers number_subtract_def round_double_exact

lemma only_handle_append: "only_handle h l (xs @ ys) = (only_handle h l xs \<and> only_handle h l ys)"
  by (simp add: only_handle_def)

lemma only_handle_filter: "only_handle h l xs \<Longrightarrow> only_handle h l (filter P xs)"
  by (simp add: only_handle_def list_all_iff)

lemma only_handle_other: "k \<noteq> l \<Longrightarrow> only_handle h l [(n, k)]"
  by (simp add: only_handle_def)

lemma no_other_registration:
  "run c evs = Inr c' \<Longrightarrow> Subscribe l \<notin> set evs \<Longrightarrow> only_handle h l (listeners c) \<Longrightarrow>
   only_handle h l (listeners c')"
proof (induction c evs rule: run.induct)
  case (1 c)
  then show ?case by simp
next
  case (2 c a evs)
  from "2.prems"(1) obtain c1 where d: "dispatch c (Some a) = Inr c1" and r: "run c1 evs = Inr c'"
    by (auto split: sum.splits)
  have "listeners c1 = listeners c"
    using dispatch_registry [OF d] by simp
  with "2.prems" have "Subscribe l \<notin> set evs" "only_handle h l (listeners c1)"
    by simp_all
  with "2.IH" [OF d r] show ?case .
next
  case (3 c k evs)
  from "3.prems"(2) have "k \<noteq> l" and e: "Subscribe l \<notin> set evs"
    by auto
  then have "only_handle h l (listeners (snd (subscribe c k)))"
    using "3.prems"(3) by (simp add: subscribe_def only_handle_append only_handle_other)
  moreover from "3.prems"(1) have "run (snd (subscribe c k)) evs = Inr c'"
    by simp
  ultimately show ?case
    using e by (rule "3.IH" [rotated 2])
next
  case (4 c k evs)
  from "4.prems"(3) have "only_handle h l (listeners (unsubscribe c k))"
    by (simp add: unsubscribe_def only_handle_filter)
  moreover from "4.prems"(1) have "run (unsubscribe c k) evs = Inr c'"
    by simp
  moreover from "4.prems"(2) have "Subscribe l \<notin> set evs"
    by simp
  ultimately show ?case
    by (rule "4.IH" [rotated 2])
qed


lemma only_registration_count:
  "distinct (map fst xs) \<Longrightarrow> (h, l) \<in> set xs \<Longrightarrow> only_handle h l xs \<Longrightarrow>
   count_list (map snd xs) l = 1"
proof (induction xs)
  case Nil
  then show ?case by simp
next
  case (Cons x xs)
  show ?case
  proof (cases "x = (h, l)")
    case True
    have "l \<notin> snd ` set xs"
    proof
      assume "l \<in> snd ` set xs"
      then obtain k where k: "(k, l) \<in> set xs"
        by auto
      with Cons.prems(3) have "k = h"
        by (auto simp add: only_handle_def list_all_iff)
      with k have "h \<in> fst ` set xs"
        by force
      with Cons.prems(1) True show False
        by simp
    qed
    with True show ?thesis
      by (simp add: count_list_0_iff)
  next
    case False
    with Cons.prems(3) have "snd x \<noteq> l"
      by (cases x) (auto simp add: only_handle_def)
    moreover from False Cons.prems have "count_list (map snd xs) l = 1"
      by (intro Cons.IH) (auto simp add: only_handle_def)
    ultimately show ?thesis
      by simp
  qed
qed

lemma not_registered:
  "run c evs = Inr c' \<Longrightarrow> Subscribe l \<notin> set evs \<Longrightarrow> l \<notin> snd ` set (listeners c) \<Longrightarrow>
   l \<notin> snd ` set (listeners c')"
proof (induction c evs rule: run.induct)
  case (1 c)
  then show ?case by simp
next
  case (2 c a evs)
  from "2.prems"(1) obtain c1 where d: "dispatch c (Some a) = Inr c1" and r: "run c1 evs = Inr c'"
    by (auto split: sum.splits)
  have "listeners c1 = listeners c"
    using dispatch_registry [OF d] by simp
  with "2.prems" have "Subscribe l \<notin> set evs" "l \<notin> snd ` set (listeners c1)"
    by simp_all
  with "2.IH" [OF d r] show ?case .
next
  case (3 c k evs)
  from "3.prems"(2) have "k \<noteq> l" and e: "Subscribe l \<notin> set evs"
    by auto
  then have "l \<notin> snd ` set (listeners (snd (subscribe c k)))"
    using "3.prems"(3) by (auto simp add: subscribe_def)
  moreover from "3.prems"(1) have "run (snd (subscribe c k)) evs = Inr c'"
    by simp
  ultimately show ?case
    using e by (rule "3.IH" [rotated 2])
next
  case (4 c k evs)
  from "4.prems"(3) have "l \<notin> snd ` set (listeners (unsubscribe c k))"
    by (auto simp add: unsubscribe_def)
  moreover from "4.prems"(1) have "run (unsubscribe c k) evs = Inr c'"
    by simp
  moreover from "4.prems"(2) have "Subscribe l \<notin> set evs"
    by simp
  ultimately show ?case
    by (rule "4.IH" [rotated 2])
qed

text \<open>
  Claim C6. A listener is subscribed and the handle \<open>h\<close> of its registration is
  returned; \<open>h\<close> is greater than every handle given out before, so the registry,
  which is sorted by handle, is in the order of subscription. After any history that
  does not invoke \<open>h\<close>, a dispatch calls the listeners then registered, in that
  order, and it calls the registration \<open>h\<close> exactly once. After \<open>h\<close> is invoked,
  and after any history at all, a dispatch does not call the registration \<open>h\<close>.
  Invoking \<open>h\<close> a second time, at once or at any later moment, changes nothing.
  When the listener has no other
  registration (it was not subscribed before and is not subscribed again), the same
  holds of the listener itself: a dispatch calls it exactly once while it is subscribed,
  and not at all after its handle was invoked.
\<close>

theorem subscribe_dispatch_unsubscribe:
  assumes ok: "registry_ok c"
    and sub: "subscribe c l = (h, c1)"
    and run1: "run c1 evs = Inr c2" and still: "Unsubscribe h \<notin> set evs"
    and d1: "dispatch c2 a = Inr c3"
    and run2: "run (unsubscribe c3 h) evs' = Inr c4"
    and d2: "dispatch c4 a' = Inr c5"
  shows "list_all (\<lambda>r. fst r < h) (listeners c) \<and>
         notified c3 = notified c2 @ listeners c2 \<and>
         count_list (listeners c2) (h, l) = 1 \<and>
         sorted_wrt (<) (map fst (listeners c2)) \<and>
         notified c5 = notified c4 @ listeners c4 \<and>
         count_list (map fst (listeners c4)) h = 0 \<and>
         unsubscribe (unsubscribe c3 h) h = unsubscribe c3 h \<and>
         unsubscribe c4 h = c4 \<and>
         (l \<notin> snd ` set (listeners c) \<and> Subscribe l \<notin> set evs \<and> Subscribe l \<notin> set evs' \<longrightarrow>
            count_list (map snd (listeners c2)) l = 1 \<and>
            count_list (map snd (listeners c4)) l = 0)"
proof (intro conjI impI)
  have c1: "c1 = snd (subscribe c l)" and h: "h = nextHandle c"
    using sub by (auto simp add: subscribe_def)
  show "list_all (\<lambda>r. fst r < h) (listeners c)"
    using ok by (simp add: registry_ok_def h)
  have ok1: "registry_ok c1"
    unfolding c1 using ok by (rule registry_ok_subscribe)
  have ok2: "registry_ok c2"
    using run1 ok1 by (rule registry_ok_run)
  then show "sorted_wrt (<) (map fst (listeners c2))"
    by (simp add: registry_ok_def)
  have "(h, l) \<in> set (listeners c1)"
    by (simp add: c1 h subscribe_def)
  with run1 still have mem: "(h, l) \<in> set (listeners c2)"
    by (rule stays_registered)
  have dist: "distinct (map fst (listeners c2))"
    using ok2 by (simp add: registry_ok_def strict_sorted_iff)
  then have "distinct (listeners c2)"
    by (simp add: distinct_map)
  then show "count_list (listeners c2) (h, l) = 1"
    using mem by (rule count_list_distinct)
  show "notified c3 = notified c2 @ listeners c2"
    using d1 by (simp add: dispatch_registry)
  have same: "listeners c3 = listeners c2"
    using d1 by (simp add: dispatch_registry)
  have ok3: "registry_ok c3"
    using d1 ok2 by (rule registry_ok_dispatch)
  with mem same have lt: "h < nextHandle (unsubscribe c3 h)"
    by (auto simp add: registry_ok_def list_all_iff unsubscribe_def)
  have gone: "h \<notin> fst ` set (listeners (unsubscribe c3 h))"
    by (auto simp add: unsubscribe_def)
  have absent: "h \<notin> fst ` set (listeners c4)"
    using run2 lt gone by (rule stays_removed)
  then show "count_list (map fst (listeners c4)) h = 0"
    by (simp add: count_list_0_iff)
  have "filter (\<lambda>r. fst r \<noteq> h) (listeners c4) = listeners c4"
    using absent by (force intro: filter_True)
  then show "unsubscribe c4 h = c4"
    by (simp add: unsubscribe_def)
  show "notified c5 = notified c4 @ listeners c4"
    using d2 by (simp add: dispatch_registry)
  show "unsubscribe (unsubscribe c3 h) h = unsubscribe c3 h"
    by (rule unsubscribe_twice)
  assume "l \<notin> snd ` set (listeners c) \<and> Subscribe l \<notin> set evs \<and> Subscribe l \<notin> set evs'"
  then have fresh: "l \<notin> snd ` set (listeners c)"
    and e1: "Subscribe l \<notin> set evs" and e2: "Subscribe l \<notin> set evs'"
    by simp_all
  have "only_handle h l (listeners c)"
    using fresh by (force simp add: only_handle_def list_all_iff)
  then have "only_handle h l (listeners c1)"
    by (simp add: c1 h subscribe_def only_handle_append) (simp add: only_handle_def)
  with run1 e1 have only: "only_handle h l (listeners c2)"
    by (rule no_other_registration)
  with dist mem show "count_list (map snd (listeners c2)) l = 1"
    by (rule only_registration_count)
  have "l \<notin> snd ` set (filter (\<lambda>r. fst r \<noteq> h) (listeners c2))"
    using only by (force simp add: only_handle_def list_all_iff)
  then have "l \<notin> snd ` set (listeners (unsubscribe c3 h))"
    by (simp add: unsubscribe_def same)
  with run2 e2 have "l \<notin> snd ` set (listeners c4)"
    by (rule not_registered)
  then show "count_list (map snd (listeners c4)) l = 0"
    by (simp add: count_list_0_iff)
qed

theorem subscribe_dispatch_unsubscribe_witness:
  "registry_ok (store_with initialState [(0, Render)] 1 []) \<and>
   subscribe (store_with initialState [(0, Render)] 1 []) Listener =
     (1, (store_with initialState [(0, Render), (1, Listener)] 2 [])) \<and>
   run (store_with initialState [(0, Render), (1, Listener)] 2 [])
     [Dispatch (increase (Number (Finite 1)))] =
     Inr (store_with \<lparr>toggle = False, counter = Number (Finite 1)\<rparr> [(0, Render), (1, Listener)] 2
         [(0, Render), (1, Listener)]) \<and>
   Unsubscribe 1 \<notin> set [Dispatch (increase (Number (Finite 1))) :: callback event] \<and>
   dispatch (store_with \<lparr>toggle = False, counter = Number (Finite 1)\<rparr> [(0, Render), (1, Listener)] 2
         [(0, Render), (1, Listener)])
     (Some toggleSwitch) =
     Inr (store_with \<lparr>toggle = True, counter = Number (Finite 1)\<rparr> [(0, Render), (1, Listener)] 2
         [(0, Render), (1, Listener), (0, Render), (1, Listener)]) \<and>
   run (unsubscribe (store_with \<lparr>toggle = True, counter = Number (Finite 1)\<rparr> [(0, Render), (1, Listener)] 2
         [(0, Render), (1, Listener), (0, Render), (1, Listener)]) 1)
     [Subscribe Render] =
     Inr (store_with \<lparr>toggle = True, counter = Number (Finite 1)\<rparr> [(0, Render), (2, Render)] 3
         [(0, Render), (1, Listener), (0, Render), (1, Listener)]) \<and>
   dispatch (store_with \<lparr>toggle = True, counter = Number (Finite 1)\<rparr> [(0, Render), (2, Render)] 3
         [(0, Render), (1, Listener), (0, Render), (1, Listener)])
     (Some decrease) =
     Inr (store_with \<lparr>toggle = True, counter = Number (Finite 0)\<rparr> [(0, Render), (2, Render)] 3
         [(0, Render), (1, Listener), (0, Render), (1, Listener), (0, Render), (2, Render)]) \<and>
   Listener \<notin> snd ` set (listeners (store_with initialState [(0, Render)] 1 [])) \<and>
     Subscribe Listener \<notin> set [Dispatch (increase (Number (Finite 1)))] \<and>
     Subscribe Listener \<notin> set [Subscribe Render] \<and>
   notified (store_with \<lparr>toggle = True, counter = Number (Finite 0)\<rparr> [(0, Render), (2, Render)] 3
         [(0, Render), (1, Listener), (0, Render), (1, Listener), (0, Render), (2, Render)]) =
     [(0, Render), (1, Listener), (0, Render), (1, Listener), (0, Render), (2, Render)] \<and>
   count_list (map snd (listeners (store_with \<lparr>toggle = False, counter = Number (Finite 1)\<rparr> [(0, Render), (1, Listener)] 2
         [(0, Render), (1, Listener)])))
     Listener = 1 \<and>
   count_list (map snd (listeners (store_with \<lparr>toggle = True, counter = Number (Finite 1)\<rparr> [(0, Render), (2, Render)] 3
         [(0, Render), (1, Listener), (0, Render), (1, Listener)])))
     Listener = 0"
proof -
  have ok:
    "registry_ok (store_with initialState [(0, Render)] 1 [])"
    by (simp add: registry_ok_def store_with_def)
  have sub:
    "subscribe (store_with initialState [(0, Render)] 1 []) Listener =
      (1, (store_with initialState [(0, Render), (1, Listener)] 2 []))"
    by (simp add: subscribe_def store_with_def)
  have run1:
    "run (store_with initialState [(0, Render), (1, Listener)] 2 [])
      [Dispatch (increase (Number (Finite 1)))] =
      Inr (store_with \<lparr>toggle = False, counter = Number (Finite 1)\<rparr> [(0, Render), (1, Listener)] 2
          [(0, Render), (1, Listener)])"
    by (simp add: store_eval increase_def initialState_def)
  have still:
    "Unsubscribe 1 \<notin> set [Dispatch (increase (Number (Finite 1))) :: callback event]"
    by simp
  have d1:
    "dispatch (store_with \<lparr>toggle = False, counter = Number (Finite 1)\<rparr> [(0, Render), (1, Listener)] 2
          [(0, Render), (1, Listener)])
      (Some toggleSwitch) =
      Inr (store_with \<lparr>toggle = True, counter = Number (Finite 1)\<rparr> [(0, Render), (1, Listener)] 2
          [(0, Render), (1, Listener), (0, Render), (1, Listener)])"
    by (simp add: store_eval toggleSwitch_def)
  have run2:
    "run (unsubscribe (store_with \<lparr>toggle = True, counter = Number (Finite 1)\<rparr> [(0, Render), (1, Listener)] 2
          [(0, Render), (1, Listener), (0, Render), (1, Listener)]) 1)
      [Subscribe Render] =
      Inr (store_with \<lparr>toggle = True, counter = Number (Finite 1)\<rparr> [(0, Render), (2, Render)] 3
          [(0, Render), (1, Listener), (0, Render), (1, Listener)])"
    by (simp add: unsubscribe_def subscribe_def store_with_def)
  have d2:
    "dispatch (store_with \<lparr>toggle = True, counter = Number (Finite 1)\<rparr> [(0, Render), (2, Render)] 3
          [(0, Render), (1, Listener), (0, Render), (1, Listener)])
      (Some decrease) =
      Inr (store_with \<lparr>toggle = True, counter = Number (Finite 0)\<rparr> [(0, Render), (2, Render)] 3
          [(0, Render), (1, Listener), (0, Render), (1, Listener), (0, Render), (2, Render)])"
    by (simp add: store_eval decrease_def)
  have alone:
    "Listener \<notin> snd ` set (listeners (store_with initialState [(0, Render)] 1 [])) \<and>
      Subscribe Listener \<notin> set [Dispatch (increase (Number (Finite 1)))] \<and>
      Subscribe Listener \<notin> set [Subscribe Render]"
    by (simp add: store_with_def)
  show ?thesis
    using subscribe_dispatch_unsubscribe [OF ok sub run1 still d1 run2 d2]
      ok sub run1 still d1 run2 d2 alone
    by (simp add: store_with_def)
qed

end
